theory Spec2Isabelle
  imports Main
begin

section \<open>JavaScript values\<close>

text \<open>
  The function values that occur in the sources: the three state setters returned by
  \<^verbatim>\<open>useState\<close> (\<^verbatim>\<open>setCount\<close> in CountContext, \<^verbatim>\<open>setJoke\<close> in CollegeContext,
  \<^verbatim>\<open>setTheme\<close> in ThemeContext.js of UserHooks.md) and the updater arrow
  \<^verbatim>\<open>prev => (prev === "light" ? "dark" : "light")\<close> of UserHooks.md.
\<close>

datatype jsfun = setCount | setJoke | setTheme | toggleUpdater

text \<open>
  Values are dynamically typed. Numbers are the integers (the only numeric literal of the
  sources is \<^verbatim>\<open>100\<close>); an object is the list of its own properties.
\<close>

datatype jsval =
    JUndefined
  | JNull
  | JBool bool
  | JNum int
  | JStr string
  | JArr "jsval list"
  | JObj "(string \<times> jsval) list"
  | JFun jsfun

text \<open>What \<^verbatim>\<open>response.json()\<close> can resolve with: JSON has neither \<^verbatim>\<open>undefined\<close> nor functions.\<close>

datatype json =
    NullJ
  | BoolJ bool
  | NumJ int
  | StrJ string
  | ArrJ "json list"
  | ObjJ "(string \<times> json) list"

primrec of_json :: "json \<Rightarrow> jsval" where
  "of_json NullJ = JNull"
| "of_json (BoolJ b) = JBool b"
| "of_json (NumJ n) = JNum n"
| "of_json (StrJ s) = JStr s"
| "of_json (ArrJ xs) = JArr (map of_json xs)"
| "of_json (ObjJ kvs) = JObj (map (map_prod id of_json) kvs)"

datatype error = TypeError | InvalidChild

text \<open>
  Property read \<^verbatim>\<open>v.k\<close>, also the read a destructuring \<^verbatim>\<open>const {k} = v\<close> performs:
  it throws a TypeError on \<^verbatim>\<open>undefined\<close> and \<^verbatim>\<open>null\<close>. The sources read the names
  count, setCount, joke, category, theme and setTheme only, none of which is a built-in
  property of a primitive, an array or a function, so those read \<^verbatim>\<open>undefined\<close>.
\<close>

fun get_prop :: "jsval \<Rightarrow> string \<Rightarrow> error + jsval" where
  "get_prop JUndefined k = Inl TypeError"
| "get_prop JNull k = Inl TypeError"
| "get_prop (JObj kvs) k = Inr (case map_of kvs k of Some v \<Rightarrow> v | None \<Rightarrow> JUndefined)"
| "get_prop v k = Inr JUndefined"

text \<open>Truthiness, as \<^verbatim>\<open>&&\<close> tests it.\<close>

fun truthy :: "jsval \<Rightarrow> bool" where
  "truthy JUndefined = False"
| "truthy JNull = False"
| "truthy (JBool b) = b"
| "truthy (JNum n) = (n \<noteq> 0)"
| "truthy (JStr s) = (s \<noteq> [])"
| "truthy v = True"

section \<open>The state setter of useState\<close>

text \<open>
  Navbar.jsx line 14 and the updater of UserHooks.md compute the same mapping
  \<^verbatim>\<open>t === "light" ? "dark" : "light"\<close>. Strict equality with a string literal holds
  for that string only.
\<close>

definition toggle :: "jsval \<Rightarrow> jsval" where
  "toggle t = (if t = JStr ''light'' then JStr ''dark'' else JStr ''light'')"

text \<open>
  Calling a function value with the previous state, as the setter does with an updater.
  A state setter returns \<^verbatim>\<open>undefined\<close>.
\<close>

fun call_updater :: "jsfun \<Rightarrow> jsval \<Rightarrow> jsval" where
  "call_updater toggleUpdater prev = toggle prev"
| "call_updater f prev = JUndefined"

text \<open>
  \<^verbatim>\<open>setX(action)\<close>: the next state of the cell. A function is taken as an updater of the
  previous state (the form \<^verbatim>\<open>setTheme(prev => ...)\<close> of UserHooks.md); any other value
  replaces the state.
\<close>

fun setState :: "jsval \<Rightarrow> jsval \<Rightarrow> jsval" where
  "setState (JFun f) prev = call_updater f prev"
| "setState v prev = v"

text \<open>Whether a value is a function, and whether a context value carries one in a property.\<close>

fun is_function :: "jsval \<Rightarrow> bool" where
  "is_function (JFun f) = True"
| "is_function v = False"

definition exposes_setter :: "jsval \<Rightarrow> bool" where
  "exposes_setter v = (case v of JObj kvs \<Rightarrow> list_ex (\<lambda>kv. is_function (snd kv)) kvs | _ \<Rightarrow> False)"

section \<open>Rendered output\<close>

datatype attr = Style string string | OnClick jsval jsval

datatype vnode = VText string | VElem string "attr list" "vnode list"

definition digit :: "nat \<Rightarrow> char" where
  "digit d =
     (if d = 0 then CHR ''0'' else if d = 1 then CHR ''1'' else if d = 2 then CHR ''2''
      else if d = 3 then CHR ''3'' else if d = 4 then CHR ''4'' else if d = 5 then CHR ''5''
      else if d = 6 then CHR ''6'' else if d = 7 then CHR ''7'' else if d = 8 then CHR ''8''
      else CHR ''9'')"

fun string_of_nat :: "nat \<Rightarrow> string" where
  "string_of_nat n =
     (if n < 10 then [digit n] else string_of_nat (n div 10) @ [digit (n mod 10)])"

declare string_of_nat.simps [simp del]

definition string_of_int :: "int \<Rightarrow> string" where
  "string_of_int i = (if i < 0 then CHR ''-'' # string_of_nat (nat (- i)) else string_of_nat (nat i))"

text \<open>
  A JSX expression child \<^verbatim>\<open>{v}\<close>: strings and numbers become text, \<^verbatim>\<open>undefined\<close>,
  \<^verbatim>\<open>null\<close>, booleans, functions and the empty string render nothing, an array renders
  its items, and a plain object makes React throw.
\<close>

fun child :: "jsval \<Rightarrow> error + vnode list"
  and child_list :: "jsval list \<Rightarrow> error + vnode list" where
  "child JUndefined = Inr []"
| "child JNull = Inr []"
| "child (JBool b) = Inr []"
| "child (JNum n) = Inr [VText (string_of_int n)]"
| "child (JStr s) = Inr (if s = [] then [] else [VText s])"
| "child (JArr xs) = child_list xs"
| "child (JObj kvs) = Inl InvalidChild"
| "child (JFun f) = Inr []"
| "child_list [] = Inr []"
| "child_list (x # xs) =
     (case child x of Inl e \<Rightarrow> Inl e
      | Inr a \<Rightarrow> (case child_list xs of Inl e \<Rightarrow> Inl e | Inr b \<Rightarrow> Inr (a @ b)))"

section \<open>Context channels and components\<close>

text \<open>
  The value of each context at a point of the tree. All three are created by
  \<^verbatim>\<open>createContext()\<close> with no default, so outside a provider \<^verbatim>\<open>useContext\<close> returns
  \<^verbatim>\<open>undefined\<close>.
\<close>

record contexts =
  CountContext :: jsval
  CollegeContext :: jsval
  ThemeContext :: jsval

definition no_provider :: contexts where
  "no_provider = \<lparr>CountContext = JUndefined, CollegeContext = JUndefined, ThemeContext = JUndefined\<rparr>"

type_synonym component = "contexts \<Rightarrow> error + vnode list"

text \<open>Rendering \<^verbatim>\<open>{children}\<close>: the first child that throws aborts the render.\<close>

fun render_children :: "component list \<Rightarrow> contexts \<Rightarrow> error + vnode list" where
  "render_children [] env = Inr []"
| "render_children (k # ks) env =
     (case k env of Inl e \<Rightarrow> Inl e
      | Inr a \<Rightarrow> (case render_children ks env of Inl e \<Rightarrow> Inl e | Inr b \<Rightarrow> Inr (a @ b)))"

subsection \<open>CountContext and CompB\<close>

text \<open>\<^verbatim>\<open>useState(100)\<close>: the count cell at mount.\<close>

definition count_mount :: jsval where
  "count_mount = JNum 100"

definition count_value :: "jsval \<Rightarrow> jsval" where
  "count_value count = JObj [(''count'', count), (''setCount'', JFun setCount)]"

definition CountProvider :: "jsval \<Rightarrow> component list \<Rightarrow> component" where
  "CountProvider count children env =
     render_children children (env\<lparr>CountContext := count_value count\<rparr>)"

definition CompB :: component where
  "CompB env =
     (case get_prop (CountContext env) ''count'' of Inl e \<Rightarrow> Inl e
      | Inr count \<Rightarrow>
     (case get_prop (CountContext env) ''setCount'' of Inl e \<Rightarrow> Inl e
      | Inr setter \<Rightarrow>
     (case child count of Inl e \<Rightarrow> Inl e
      | Inr kids \<Rightarrow> Inr [VElem ''div'' [] kids])))"

definition App :: "jsval \<Rightarrow> component" where
  "App count = CountProvider count [CompB]"

text \<open>
  What a rendered tree can do next: the \<^verbatim>\<open>onClick\<close> closures in it, each as the function
  value it calls and the argument it passes.
\<close>

fun attr_handlers :: "attr list \<Rightarrow> (jsval \<times> jsval) list" where
  "attr_handlers [] = []"
| "attr_handlers (Style k v # as) = attr_handlers as"
| "attr_handlers (OnClick f a # as) = (f, a) # attr_handlers as"

fun handlers :: "vnode \<Rightarrow> (jsval \<times> jsval) list" where
  "handlers (VText s) = []"
| "handlers (VElem tag attrs kids) = attr_handlers attrs @ concat (map handlers kids)"

text \<open>
  Running a click handler \<^verbatim>\<open>f(a)\<close> against the state cell whose setter is \<open>own\<close>:
  only that setter writes the cell.
\<close>

definition fire :: "jsfun \<Rightarrow> jsval \<times> jsval \<Rightarrow> jsval \<Rightarrow> jsval" where
  "fire own h cell = (if fst h = JFun own then setState (snd h) cell else cell)"

text \<open>
  The mounted App: its only state is the count cell, and it changes only when a handler
  of the rendered tree runs (CountProvider and CompB register no effect and no timer).
\<close>

inductive app_step :: "jsval \<Rightarrow> jsval \<Rightarrow> bool" where
  click: "App count env = Inr out \<Longrightarrow> h \<in> set (concat (map handlers out))
    \<Longrightarrow> app_step count (fire setCount h count)"

inductive app_reachable :: "jsval \<Rightarrow> bool" where
  mounted: "app_reachable count_mount"
| stepped: "app_reachable count \<Longrightarrow> app_step count count' \<Longrightarrow> app_reachable count'"

subsection \<open>CollegeContext and CompA\<close>

text \<open>
  The effect of CollegeProvider has the dependency list \<^verbatim>\<open>[]\<close>: it runs after the first
  commit only, and starts one fetch. \<open>NotStarted\<close>: rendered, effect not yet run;
  \<open>Pending\<close>: the request is in flight; \<open>Settled\<close>: its promise chain has finished.
  The context value carries \<^verbatim>\<open>joke\<close> alone, so no descendant can write the cell: the
  events of a mount are the commits of its renders and the settlement of its request.
\<close>

datatype fetch_status = NotStarted | Pending | Settled

record college_state =
  joke :: jsval
  fetch :: fetch_status

text \<open>\<^verbatim>\<open>useState("")\<close>, before the first commit.\<close>

definition college_mount :: college_state where
  "college_mount = \<lparr>joke = JStr [], fetch = NotStarted\<rparr>"

text \<open>\<^verbatim>\<open>value={{ joke }}\<close>\<close>

definition college_value :: "college_state \<Rightarrow> jsval" where
  "college_value s = JObj [(''joke'', joke s)]"

definition CollegeProvider :: "college_state \<Rightarrow> component list \<Rightarrow> component" where
  "CollegeProvider s children env =
     render_children children (env\<lparr>CollegeContext := college_value s\<rparr>)"

text \<open>
  How the request ends: \<^verbatim>\<open>fetch\<close> rejects, or \<^verbatim>\<open>response.json()\<close> rejects on a body
  that is not JSON, or it resolves with the parsed body.
\<close>

datatype fetch_outcome = NetworkError | MalformedBody | Parsed json

datatype college_event = Commit | Settle fetch_outcome

text \<open>
  The chain is \<^verbatim>\<open>fetch(url).then(response => response.json()).then(data => setJoke(data))\<close>
  with no rejection handler: a rejection skips the remaining callbacks. A promise
  settles once, so a settlement with no request in flight changes nothing.
\<close>

fun college_step :: "college_event \<Rightarrow> college_state \<Rightarrow> college_state" where
  "college_step Commit s = (if fetch s = NotStarted then s\<lparr>fetch := Pending\<rparr> else s)"
| "college_step (Settle outcome) s =
     (if fetch s = Pending then
        (case outcome of
           Parsed data \<Rightarrow> s\<lparr>joke := setState (of_json data) (joke s), fetch := Settled\<rparr>
         | _ \<Rightarrow> s\<lparr>fetch := Settled\<rparr>)
      else s)"

definition college_run :: "college_event list \<Rightarrow> college_state \<Rightarrow> college_state" where
  "college_run es s = fold college_step es s"

text \<open>The states a mount goes through, the first before any event.\<close>

fun college_trace :: "college_event list \<Rightarrow> college_state \<Rightarrow> college_state list" where
  "college_trace [] s = [s]"
| "college_trace (e # es) s = s # college_trace es (college_step e s)"

text \<open>The number of places where a sequence changes its value.\<close>

fun changes :: "'a list \<Rightarrow> nat" where
  "changes (x # y # zs) = (if x = y then 0 else 1) + changes (y # zs)"
| "changes xs = 0"

text \<open>The number of times the events of a run call \<^verbatim>\<open>setJoke\<close>.\<close>

fun setJoke_calls :: "college_event list \<Rightarrow> college_state \<Rightarrow> nat" where
  "setJoke_calls [] s = 0"
| "setJoke_calls (e # es) s =
     (case e of Settle (Parsed data) \<Rightarrow> (if fetch s = Pending then 1 else 0) | _ \<Rightarrow> 0)
     + setJoke_calls es (college_step e s)"

definition CompA :: component where
  "CompA env =
     (case get_prop (CollegeContext env) ''joke'' of Inl e \<Rightarrow> Inl e
      | Inr j \<Rightarrow>
     (case get_prop j ''category'' of Inl e \<Rightarrow> Inl e
      | Inr category \<Rightarrow>
     (case (if truthy category
            then (case child category of Inl e \<Rightarrow> Inl e
                  | Inr c \<Rightarrow> Inr [VElem ''h2'' [] (VText ''Category: '' # c)])
            else child category) of Inl e \<Rightarrow> Inl e
      | Inr guarded \<Rightarrow>
          Inr [VElem ''div'' [] (VElem ''h1'' [] [VText ''Joke of the day''] # guarded)])))"

text \<open>The text a node shows.\<close>

fun text_content :: "vnode \<Rightarrow> string" where
  "text_content (VText s) = s"
| "text_content (VElem tag attrs kids) = concat (map text_content kids)"

text \<open>The elements with a given tag, in document order.\<close>

fun elements :: "string \<Rightarrow> vnode \<Rightarrow> vnode list" where
  "elements tag (VText s) = []"
| "elements tag (VElem t attrs kids) =
     (if t = tag then [VElem t attrs kids] else []) @ concat (map (elements tag) kids)"

subsection \<open>ThemeContext and Navbar\<close>

text \<open>ThemeContext.js is given in UserHooks.md: \<^verbatim>\<open>useState("light")\<close> and \<^verbatim>\<open>value={{ theme, setTheme }}\<close>.\<close>

definition theme_mount :: jsval where
  "theme_mount = JStr ''light''"

definition theme_value :: "jsval \<Rightarrow> jsval" where
  "theme_value theme = JObj [(''theme'', theme), (''setTheme'', JFun setTheme)]"

definition ThemeProvider :: "jsval \<Rightarrow> component list \<Rightarrow> component" where
  "ThemeProvider theme children env =
     render_children children (env\<lparr>ThemeContext := theme_value theme\<rparr>)"

definition Navbar :: component where
  "Navbar env =
     (case get_prop (ThemeContext env) ''theme'' of Inl e \<Rightarrow> Inl e
      | Inr theme \<Rightarrow>
     (case get_prop (ThemeContext env) ''setTheme'' of Inl e \<Rightarrow> Inl e
      | Inr setter \<Rightarrow>
     (case child theme of Inl e \<Rightarrow> Inl e
      | Inr shown \<Rightarrow>
          Inr [VElem ''div''
                 [Style ''backgroundColor'' (if theme = JStr ''light'' then ''#fff'' else ''#222''),
                  Style ''color'' (if theme = JStr ''light'' then ''#000'' else ''#fff'')]
                 [VElem ''h1'' [] (shown @ [VText '' MODE'']),
                  VElem ''button'' [OnClick setter (toggle theme)] [VText ''Toggle Theme'']]])))"

section \<open>Auxiliary facts\<close>

subsection \<open>Values and the setter\<close>

lemma of_json_data: "\<not> is_function (of_json d)"
  by (cases d) simp_all

lemma setState_data: "\<not> is_function v \<Longrightarrow> setState v prev = v"
  by (cases v) simp_all

subsection \<open>Runs of a joke provider mount\<close>

text \<open>
  Once the request has settled no event changes the state; until it has, no event
  changes the joke.
\<close>

lemma run_Nil: "college_run [] s = s"
  by (simp add: college_run_def)

lemma run_Cons: "college_run (e # es) s = college_run es (college_step e s)"
  by (simp add: college_run_def)

lemma run_append: "college_run (xs @ ys) s = college_run ys (college_run xs s)"
  by (simp add: college_run_def)

lemma settled_step: "fetch s = Settled \<Longrightarrow> college_step e s = s"
  by (cases e) simp_all

lemma settled_run: "fetch s = Settled \<Longrightarrow> college_run es s = s"
  by (induction es) (simp_all add: run_Nil run_Cons settled_step)

lemma settled_trace: "fetch s = Settled \<Longrightarrow> college_trace es s = replicate (Suc (length es)) s"
  by (induction es) (simp_all add: settled_step)

lemma settled_calls: "fetch s = Settled \<Longrightarrow> setJoke_calls es s = 0"
  by (induction es) (auto simp: settled_step split: college_event.splits fetch_outcome.splits)

lemma trace_append:
  "college_trace (xs @ y # ys) s =
     college_trace xs s @ college_trace ys (college_step y (college_run xs s))"
  by (induction xs arbitrary: s) (simp_all add: run_Nil run_Cons)

lemma calls_append:
  "setJoke_calls (xs @ ys) s = setJoke_calls xs s + setJoke_calls ys (college_run xs s)"
  by (induction xs arbitrary: s) (simp_all add: run_Nil run_Cons)

lemma step_keeps_joke: "fetch (college_step e s) \<noteq> Settled \<Longrightarrow> joke (college_step e s) = joke s"
  by (cases e) (auto split: if_splits fetch_outcome.splits)

lemma step_unsettled:
  assumes "fetch (college_run (e # es) s) \<noteq> Settled"
  shows "fetch (college_step e s) \<noteq> Settled"
proof
  assume "fetch (college_step e s) = Settled"
  then have "college_run es (college_step e s) = college_step e s"
    by (rule settled_run)
  with assms \<open>fetch (college_step e s) = Settled\<close> show False
    by (simp add: run_Cons)
qed

lemma unsettled_trace:
  "fetch (college_run es s) \<noteq> Settled \<Longrightarrow>
     map joke (college_trace es s) = replicate (Suc (length es)) (joke s)"
proof (induction es arbitrary: s)
  case Nil
  then show ?case by simp
next
  case (Cons e es)
  have u: "fetch (college_step e s) \<noteq> Settled"
    using Cons.prems by (rule step_unsettled)
  have "fetch (college_run es (college_step e s)) \<noteq> Settled"
    using Cons.prems by (simp add: run_Cons)
  then have "map joke (college_trace es (college_step e s)) =
      replicate (Suc (length es)) (joke (college_step e s))"
    by (rule Cons.IH)
  with u show ?case by (simp add: step_keeps_joke)
qed

lemma unsettled_joke:
  assumes "fetch (college_run es s) \<noteq> Settled"
  shows "joke (college_run es s) = joke s"
  using assms
proof (induction es arbitrary: s)
  case Nil
  then show ?case by (simp add: run_Nil)
next
  case (Cons e es)
  have u: "fetch (college_step e s) \<noteq> Settled"
    using Cons.prems by (rule step_unsettled)
  have "fetch (college_run es (college_step e s)) \<noteq> Settled"
    using Cons.prems by (simp add: run_Cons)
  then have "joke (college_run es (college_step e s)) = joke (college_step e s)"
    by (rule Cons.IH)
  with u show ?case by (simp add: run_Cons step_keeps_joke)
qed

lemma unsettled_calls:
  "fetch (college_run es s) \<noteq> Settled \<Longrightarrow> setJoke_calls es s = 0"
proof (induction es arbitrary: s)
  case Nil
  then show ?case by simp
next
  case (Cons e es)
  have u: "fetch (college_step e s) \<noteq> Settled"
    using Cons.prems by (rule step_unsettled)
  have "fetch (college_run es (college_step e s)) \<noteq> Settled"
    using Cons.prems by (simp add: run_Cons)
  then have "setJoke_calls es (college_step e s) = 0"
    by (rule Cons.IH)
  with u show ?case
    by (cases e) (auto split: if_splits fetch_outcome.splits)
qed

lemma changes_replicate: "changes (replicate n x) = 0"
proof (induction n)
  case 0
  then show ?case by simp
next
  case (Suc n)
  then show ?case by (cases n) simp_all
qed

lemma changes_two_runs:
  "changes (replicate (Suc m) x @ replicate (Suc n) y) = (if x = y then 0 else 1)"
proof (induction m)
  case 0
  have "changes (y # replicate n y) = 0"
    using changes_replicate [of "Suc n" y] by simp
  then show ?case by simp
next
  case (Suc m)
  then show ?case by simp
qed

lemma replicate_two_runs:
  "replicate (Suc m) x @ replicate (Suc n) x = replicate (m + n + 2) x"
  by (induction m) simp_all

lemma trace_values:
  "map college_value tr = map (\<lambda>j. JObj [(''joke'', j)]) (map joke tr)"
  by (simp add: college_value_def)

lemma step_joke_data: "\<not> is_function (joke s) \<Longrightarrow> \<not> is_function (joke (college_step e s))"
  by (cases e) (auto simp: setState_data of_json_data split: fetch_outcome.splits)

lemma run_joke_data: "\<not> is_function (joke s) \<Longrightarrow> \<not> is_function (joke (college_run es s))"
  by (induction es arbitrary: s) (simp_all add: run_Nil run_Cons step_joke_data)

lemma commits_keep_pending:
  "set b \<subseteq> {Commit} \<Longrightarrow> fetch s = Pending \<Longrightarrow> fetch (college_run b s) = Pending"
proof (induction b arbitrary: s)
  case Nil
  then show ?case by (simp add: run_Nil)
next
  case (Cons e b)
  from Cons.prems(1) have e: "e = Commit" and b: "set b \<subseteq> {Commit}"
    by auto
  have "fetch (college_step e s) = Pending"
    using Cons.prems(2) by (simp add: e)
  then have "fetch (college_run b (college_step e s)) = Pending"
    by (rule Cons.IH [OF b])
  then show ?case by (simp add: run_Cons)
qed

text \<open>
  After the first commit the request is in flight, and it stays so through every later
  commit: only its settlement ends it.
\<close>

lemma commits_pending:
  assumes "set b \<subseteq> {Commit}"
  shows "fetch (college_run (Commit # b) college_mount) = Pending"
proof -
  have "fetch (college_step Commit college_mount) = Pending"
    by (simp add: college_mount_def)
  then have "fetch (college_run b (college_step Commit college_mount)) = Pending"
    by (rule commits_keep_pending [OF assms])
  then show ?thesis by (simp add: run_Cons)
qed

lemma resolution_trace:
  assumes "fetch (college_run pre college_mount) = Pending"
  shows "map college_value (college_trace (pre @ Settle (Parsed data) # post) college_mount) =
           replicate (Suc (length pre)) (JObj [(''joke'', JStr [])])
           @ replicate (Suc (length post)) (JObj [(''joke'', of_json data)])"
    and "setJoke_calls (pre @ Settle (Parsed data) # post) college_mount = 1"
proof -
  define s where "s = college_run pre college_mount"
  define t where "t = college_step (Settle (Parsed data)) s"
  have ps: "fetch s = Pending" using assms by (simp add: s_def)
  then have ns: "fetch (college_run pre college_mount) \<noteq> Settled" by (simp add: s_def)
  have ft: "fetch t = Settled"
    using ps by (simp add: t_def)
  have jt: "joke t = of_json data"
    using ps by (simp add: t_def setState_data of_json_data)
  have before: "map joke (college_trace pre college_mount) = replicate (Suc (length pre)) (JStr [])"
    using unsettled_trace [OF ns] by (simp add: college_mount_def)
  have after: "map joke (college_trace post t) = replicate (Suc (length post)) (of_json data)"
    by (simp add: settled_trace [OF ft] jt)
  have split: "college_trace (pre @ Settle (Parsed data) # post) college_mount =
      college_trace pre college_mount @ college_trace post t"
    by (simp add: trace_append t_def s_def)
  show "map college_value (college_trace (pre @ Settle (Parsed data) # post) college_mount) =
           replicate (Suc (length pre)) (JObj [(''joke'', JStr [])])
           @ replicate (Suc (length post)) (JObj [(''joke'', of_json data)])"
    unfolding trace_values split map_append before after by simp
  have c0: "setJoke_calls pre college_mount = 0"
    using ns by (rule unsettled_calls)
  have c1: "setJoke_calls post t = 0"
    using ft by (rule settled_calls)
  have "setJoke_calls (pre @ Settle (Parsed data) # post) college_mount =
      setJoke_calls pre college_mount + setJoke_calls (Settle (Parsed data) # post) s"
    by (simp add: calls_append s_def)
  also have "setJoke_calls (Settle (Parsed data) # post) s = 1 + setJoke_calls post t"
    using ps by (simp add: t_def)
  finally show "setJoke_calls (pre @ Settle (Parsed data) # post) college_mount = 1"
    using c0 c1 by simp
qed

lemma resolution_state:
  assumes "fetch (college_run pre college_mount) = Pending"
  shows "joke (college_run (pre @ Settle (Parsed data) # post) college_mount) = of_json data"
proof -
  define s where "s = college_run pre college_mount"
  define t where "t = college_step (Settle (Parsed data)) s"
  have ps: "fetch s = Pending" using assms by (simp add: s_def)
  have ft: "fetch t = Settled"
    using ps by (simp add: t_def)
  have jt: "joke t = of_json data"
    using ps by (simp add: t_def setState_data of_json_data)
  have "college_run (pre @ Settle (Parsed data) # post) college_mount = college_run post t"
    by (simp add: run_append run_Cons t_def s_def)
  also have "\<dots> = t"
    using ft by (rule settled_run)
  finally show ?thesis by (simp add: jt)
qed

subsection \<open>Rendering\<close>

lemma CompA_in_provider:
  "CollegeProvider s [CompA] env = CompA (env\<lparr>CollegeContext := college_value s\<rparr>)"
  by (simp add: CollegeProvider_def split: sum.splits)

lemma Navbar_in_provider:
  "ThemeProvider theme [Navbar] env = Navbar (env\<lparr>ThemeContext := theme_value theme\<rparr>)"
  by (simp add: ThemeProvider_def split: sum.splits)

lemma render_children_fails:
  "k \<in> set ks \<Longrightarrow> k env = Inl e \<Longrightarrow> isl (render_children ks env)"
  by (induction ks) (auto split: sum.splits)

lemma CompA_undefined: "CollegeContext env = JUndefined \<Longrightarrow> CompA env = Inl TypeError"
  by (simp add: CompA_def)

lemma CompB_undefined: "CountContext env = JUndefined \<Longrightarrow> CompB env = Inl TypeError"
  by (simp add: CompB_def)

lemma child_no_handlers:
  "child v = Inr out \<Longrightarrow> concat (map handlers out) = []"
  "child_list vs = Inr out' \<Longrightarrow> concat (map handlers out') = []"
  by (induction v and vs arbitrary: out and out' rule: child_child_list.induct)
    (auto split: sum.splits if_splits)

lemma CompB_no_handlers: "CompB env = Inr out \<Longrightarrow> concat (map handlers out) = []"
  by (auto simp: CompB_def split: sum.splits dest: child_no_handlers(1))

lemma App_no_handlers: "App count env = Inr out \<Longrightarrow> concat (map handlers out) = []"
  by (auto simp: App_def CountProvider_def split: sum.splits dest: CompB_no_handlers)

lemma no_app_step: "\<not> app_step count count'"
  by (auto elim!: app_step.cases dest: App_no_handlers)

lemma reachable_is_mount: "app_reachable count \<Longrightarrow> count = count_mount"
  by (induction rule: app_reachable.induct) (simp_all add: no_app_step)

section \<open>The counter provider\<close>

text \<open>
  C1. At every mount of CountProvider, whatever surrounds it and whatever its children
  are, the count it puts on the context channel before any setter call is 100, and
  CompB inside it displays 100.
\<close>

theorem count_initially_100:
  "CountProvider count_mount children env =
     render_children children (env\<lparr>CountContext := count_value (JNum 100)\<rparr>)
   \<and> get_prop (count_value count_mount) ''count'' = Inr (JNum 100)
   \<and> App count_mount env = Inr [VElem ''div'' [] [VText ''100'']]"
  by (simp add: CountProvider_def count_mount_def count_value_def App_def CompB_def
      string_of_int_def string_of_nat.simps digit_def)

section \<open>What the providers expose\<close>

text \<open>
  C2 as stated, for CollegeProvider: the value it provides at mount is \<^verbatim>\<open>{ joke }\<close>, with no
  setter in it.
\<close>

theorem college_exposes_no_setter: "\<not> exposes_setter (college_value college_mount)"
  by (simp add: exposes_setter_def college_value_def college_mount_def)

text \<open>
  C2, amended. CountProvider exposes \<^verbatim>\<open>{count, setCount}\<close> and ThemeProvider
  \<^verbatim>\<open>{theme, setTheme}\<close>, the state value with its setter, to all their descendants.
  CollegeProvider exposes \<^verbatim>\<open>{joke}\<close> to all its descendants: the state value, and at no
  point of a mount a setter; reading \<^verbatim>\<open>setJoke\<close> from it gives \<^verbatim>\<open>undefined\<close>.
\<close>

theorem providers_expose:
  "get_prop (count_value count) ''count'' = Inr count
   \<and> get_prop (count_value count) ''setCount'' = Inr (JFun setCount)
   \<and> exposes_setter (count_value count)
   \<and> CountProvider count children env =
       render_children children (env\<lparr>CountContext := count_value count\<rparr>)
   \<and> get_prop (theme_value theme) ''theme'' = Inr theme
   \<and> get_prop (theme_value theme) ''setTheme'' = Inr (JFun setTheme)
   \<and> exposes_setter (theme_value theme)
   \<and> ThemeProvider theme children env =
       render_children children (env\<lparr>ThemeContext := theme_value theme\<rparr>)
   \<and> college_value s = JObj [(''joke'', joke s)]
   \<and> get_prop (college_value s) ''joke'' = Inr (joke s)
   \<and> get_prop (college_value s) ''setJoke'' = Inr JUndefined
   \<and> \<not> exposes_setter (college_value (college_run es college_mount))
   \<and> CollegeProvider s children env =
       render_children children (env\<lparr>CollegeContext := college_value s\<rparr>)"
proof -
  have "\<not> is_function (joke (college_run es college_mount))"
    by (rule run_joke_data) (simp add: college_mount_def)
  then have "\<not> exposes_setter (college_value (college_run es college_mount))"
    by (simp add: exposes_setter_def college_value_def)
  then show ?thesis
    by (simp add: count_value_def theme_value_def college_value_def CountProvider_def
        ThemeProvider_def CollegeProvider_def exposes_setter_def)
qed

section \<open>The exposed setter\<close>

text \<open>
  C3 as stated, at a function: \<^verbatim>\<open>setCount(prev => (prev === "light" ? "dark" : "light"))\<close>
  on the mounted counter stores what the function returns, the string \<^verbatim>\<open>"light"\<close>, not
  the function.
\<close>

theorem setter_updater_counterexample:
  "setState (JFun toggleUpdater) count_mount = JStr ''light''
   \<and> setState (JFun toggleUpdater) count_mount \<noteq> JFun toggleUpdater"
  by (simp add: count_mount_def toggle_def)

text \<open>
  C3, amended. For every value \<open>v\<close> that is not a function, calling the exposed setter
  with \<open>v\<close> replaces the stored count with \<open>v\<close> as it is, whatever the count was, and
  every consumer inside the provider then reads \<open>v\<close> from the context.
\<close>

theorem setter_replaces_data:
  assumes "\<not> is_function v"
  shows "setState v prev = v
       \<and> fire setCount (JFun setCount, v) prev = v
       \<and> get_prop (count_value (setState v prev)) ''count'' = Inr v
       \<and> CountProvider (setState v prev) children env =
           render_children children (env\<lparr>CountContext := count_value v\<rparr>)"
  using assms by (simp add: setState_data fire_def count_value_def CountProvider_def)

text \<open>
  The scenario of the specification: after \<^verbatim>\<open>setCount(42)\<close> CompB displays 42.
\<close>

theorem setter_replaces_data_witness:
  "\<not> is_function (JNum 42)
   \<and> setState (JNum 42) count_mount = JNum 42
   \<and> get_prop (count_value (setState (JNum 42) count_mount)) ''count'' = Inr (JNum 42)
   \<and> App (setState (JNum 42) count_mount) no_provider = Inr [VElem ''div'' [] [VText ''42'']]"
proof -
  have d: "\<not> is_function (JNum 42)" by simp
  show ?thesis
    using setter_replaces_data [OF d, of count_mount "[CompB]" no_provider]
    by (simp add: App_def CountProvider_def CompB_def count_value_def string_of_int_def
        string_of_nat.simps digit_def)
qed

section \<open>The joke provider\<close>

text \<open>
  C4 as stated, at the body \<^verbatim>\<open>""\<close>: the request succeeds and \<^verbatim>\<open>setJoke\<close> is called with
  the parsed payload, the empty string, which is the placeholder: the exposed value never
  changes.
\<close>

theorem empty_payload_counterexample:
  "fetch (college_run [Commit, Settle (Parsed (StrJ []))] college_mount) = Settled
   \<and> setJoke_calls [Commit, Settle (Parsed (StrJ []))] college_mount = 1
   \<and> map college_value (college_trace [Commit, Settle (Parsed (StrJ []))] college_mount) =
       [JObj [(''joke'', JStr [])], JObj [(''joke'', JStr [])], JObj [(''joke'', JStr [])]]
   \<and> changes (map college_value (college_trace [Commit, Settle (Parsed (StrJ []))] college_mount))
       = 0"
  by (simp add: college_run_def college_mount_def college_value_def)

text \<open>
  C4, amended. Take a mount: its first commit, any number of later commits \<open>b\<close>, then the
  resolution of the request with a parsed body \<open>data\<close> other than the empty string, then
  any events \<open>post\<close>. The exposed value is the placeholder at every point up to the
  resolution and the payload at every point after it, so it changes exactly once;
  \<^verbatim>\<open>setJoke\<close> is called once in the whole run.
\<close>

theorem joke_transitions_once:
  assumes "set b \<subseteq> {Commit}" and "of_json data \<noteq> JStr []"
  shows "map college_value
           (college_trace (Commit # b @ Settle (Parsed data) # post) college_mount) =
           replicate (Suc (Suc (length b))) (JObj [(''joke'', JStr [])])
           @ replicate (Suc (length post)) (JObj [(''joke'', of_json data)])
       \<and> changes (map college_value
           (college_trace (Commit # b @ Settle (Parsed data) # post) college_mount)) = 1
       \<and> setJoke_calls (Commit # b @ Settle (Parsed data) # post) college_mount = 1"
proof -
  have p: "fetch (college_run (Commit # b) college_mount) = Pending"
    using assms(1) by (rule commits_pending)
  have tr: "map college_value
      (college_trace (Commit # b @ Settle (Parsed data) # post) college_mount) =
      replicate (Suc (Suc (length b))) (JObj [(''joke'', JStr [])])
      @ replicate (Suc (length post)) (JObj [(''joke'', of_json data)])"
    using resolution_trace(1) [OF p, of data post] by simp
  have calls: "setJoke_calls (Commit # b @ Settle (Parsed data) # post) college_mount = 1"
    using resolution_trace(2) [OF p, of data post] by simp
  have "changes (map college_value
      (college_trace (Commit # b @ Settle (Parsed data) # post) college_mount)) = 1"
    unfolding tr changes_two_runs using assms(2) by simp
  with tr calls show ?thesis by blast
qed

text \<open>
  A run with two commits before the resolution and, after it, a third commit and two late
  settlements: none of the later events changes the exposed value.
\<close>

theorem joke_transitions_once_witness:
  "set [Commit] \<subseteq> {Commit}
   \<and> of_json (ObjJ [(''category'', StrJ ''Programming'')]) \<noteq> JStr []
   \<and> map college_value (college_trace
      (Commit # [Commit] @ Settle (Parsed (ObjJ [(''category'', StrJ ''Programming'')]))
         # [Commit, Settle (Parsed (StrJ ''other'')), Settle NetworkError]) college_mount) =
     [JObj [(''joke'', JStr [])], JObj [(''joke'', JStr [])], JObj [(''joke'', JStr [])],
      JObj [(''joke'', JObj [(''category'', JStr ''Programming'')])],
      JObj [(''joke'', JObj [(''category'', JStr ''Programming'')])],
      JObj [(''joke'', JObj [(''category'', JStr ''Programming'')])],
      JObj [(''joke'', JObj [(''category'', JStr ''Programming'')])]]
   \<and> changes (map college_value (college_trace
      (Commit # [Commit] @ Settle (Parsed (ObjJ [(''category'', StrJ ''Programming'')]))
         # [Commit, Settle (Parsed (StrJ ''other'')), Settle NetworkError]) college_mount)) = 1"
proof -
  have c: "set [Commit] \<subseteq> {Commit}" by simp
  have d: "of_json (ObjJ [(''category'', StrJ ''Programming'')]) \<noteq> JStr []" by simp
  show ?thesis
    using joke_transitions_once [OF c d,
        of "[Commit, Settle (Parsed (StrJ ''other'')), Settle NetworkError]"]
    by simp
qed

text \<open>
  C5. A consumer with no enclosing provider reads \<^verbatim>\<open>undefined\<close> from its context and
  throws a TypeError where it destructures it: CompA on \<^verbatim>\<open>joke\<close>, CompB on
  \<^verbatim>\<open>count\<close>. Nothing catches the error: a list of children holding such a consumer
  fails to render, and so does each provider of another context wrapped around it.
\<close>

theorem consumer_without_provider:
  assumes "CollegeContext env = JUndefined" and "CountContext env = JUndefined"
  shows "get_prop (CollegeContext env) ''joke'' = Inl TypeError
       \<and> CompA env = Inl TypeError
       \<and> get_prop (CountContext env) ''count'' = Inl TypeError
       \<and> CompB env = Inl TypeError
       \<and> (CompA \<in> set ks \<or> CompB \<in> set ks \<longrightarrow> isl (render_children ks env))
       \<and> (CompA \<in> set ks \<longrightarrow>
            isl (CountProvider count ks env) \<and> isl (ThemeProvider theme ks env))
       \<and> (CompB \<in> set ks \<longrightarrow>
            isl (CollegeProvider s ks env) \<and> isl (ThemeProvider theme ks env))"
proof -
  have a: "CompA env' = Inl TypeError" if "CollegeContext env' = JUndefined" for env'
    using that by (rule CompA_undefined)
  have b: "CompB env' = Inl TypeError" if "CountContext env' = JUndefined" for env'
    using that by (rule CompB_undefined)
  have 1: "isl (render_children ks env)" if "CompA \<in> set ks \<or> CompB \<in> set ks"
    using that a [OF assms(1)] b [OF assms(2)] render_children_fails by blast
  have 2: "isl (CountProvider count ks env)" if "CompA \<in> set ks"
    unfolding CountProvider_def
    by (rule render_children_fails [OF that a]) (simp add: assms)
  have 3: "isl (ThemeProvider theme ks env)" if "CompA \<in> set ks"
    unfolding ThemeProvider_def
    by (rule render_children_fails [OF that a]) (simp add: assms)
  have 4: "isl (CollegeProvider s ks env)" if "CompB \<in> set ks"
    unfolding CollegeProvider_def
    by (rule render_children_fails [OF that b]) (simp add: assms)
  have 5: "isl (ThemeProvider theme ks env)" if "CompB \<in> set ks"
    unfolding ThemeProvider_def
    by (rule render_children_fails [OF that b]) (simp add: assms)
  show ?thesis
    using 1 2 3 4 5 by (simp add: assms a b)
qed

theorem consumer_without_provider_witness:
  "CompA no_provider = Inl TypeError
   \<and> CompB no_provider = Inl TypeError
   \<and> isl (render_children [CompB, CompA] no_provider)
   \<and> isl (CountProvider count_mount [CompB, CompA] no_provider)
   \<and> isl (CollegeProvider college_mount [CompB, CompA] no_provider)"
proof -
  have a: "CollegeContext no_provider = JUndefined" by (simp add: no_provider_def)
  have b: "CountContext no_provider = JUndefined" by (simp add: no_provider_def)
  show ?thesis
    using consumer_without_provider [OF a b, of "[CompB, CompA]" count_mount JNull college_mount]
    by simp
qed

text \<open>
  C6. When the request in flight ends in a rejection of \<^verbatim>\<open>fetch\<close> or of
  \<^verbatim>\<open>response.json()\<close>, \<^verbatim>\<open>setJoke\<close> is never called in the mount, and the context
  value is \<^verbatim>\<open>{joke: ""}\<close> at every point of it: the placeholder, and no error field.
\<close>

theorem fetch_failure_keeps_placeholder:
  assumes "fetch (college_run pre college_mount) = Pending"
    and "outcome = NetworkError \<or> outcome = MalformedBody"
  shows "map college_value (college_trace (pre @ Settle outcome # post) college_mount) =
           replicate (length pre + length post + 2) (JObj [(''joke'', JStr [])])
       \<and> setJoke_calls (pre @ Settle outcome # post) college_mount = 0"
proof -
  define s where "s = college_run pre college_mount"
  define t where "t = college_step (Settle outcome) s"
  have ps: "fetch s = Pending" using assms(1) by (simp add: s_def)
  then have ns: "fetch (college_run pre college_mount) \<noteq> Settled" by (simp add: s_def)
  have ft: "fetch t = Settled"
    using ps assms(2) by (auto simp: t_def)
  have js: "joke s = JStr []"
    using unsettled_joke [OF ns] by (simp add: s_def college_mount_def)
  have jt: "joke t = JStr []"
    using ps assms(2) js by (auto simp: t_def)
  have before: "map joke (college_trace pre college_mount) = replicate (Suc (length pre)) (JStr [])"
    using unsettled_trace [OF ns] by (simp add: college_mount_def)
  have after: "map joke (college_trace post t) = replicate (Suc (length post)) (JStr [])"
    by (simp add: settled_trace [OF ft] jt)
  have split: "college_trace (pre @ Settle outcome # post) college_mount =
      college_trace pre college_mount @ college_trace post t"
    by (simp add: trace_append t_def s_def)
  have "map joke (college_trace (pre @ Settle outcome # post) college_mount) =
      replicate (length pre + length post + 2) (JStr [])"
    unfolding split map_append before after by (rule replicate_two_runs)
  then have tr: "map college_value (college_trace (pre @ Settle outcome # post) college_mount) =
      replicate (length pre + length post + 2) (JObj [(''joke'', JStr [])])"
    unfolding trace_values by simp
  have c0: "setJoke_calls pre college_mount = 0"
    using ns by (rule unsettled_calls)
  have c1: "setJoke_calls post t = 0"
    using ft by (rule settled_calls)
  have "setJoke_calls (pre @ Settle outcome # post) college_mount =
      setJoke_calls pre college_mount + setJoke_calls (Settle outcome # post) s"
    by (simp add: calls_append s_def)
  also have "setJoke_calls (Settle outcome # post) s = setJoke_calls post t"
    using assms(2) by (auto simp: t_def)
  finally have "setJoke_calls (pre @ Settle outcome # post) college_mount = 0"
    using c0 c1 by simp
  with tr show ?thesis by blast
qed

theorem fetch_failure_keeps_placeholder_witness:
  "map college_value (college_trace
      ([Commit] @ Settle MalformedBody # [Settle (Parsed (StrJ ''late'')), Commit]) college_mount) =
     replicate 5 (JObj [(''joke'', JStr [])])
   \<and> setJoke_calls ([Commit] @ Settle MalformedBody # [Settle (Parsed (StrJ ''late'')), Commit])
       college_mount = 0"
proof -
  have p: "fetch (college_run [Commit] college_mount) = Pending"
    by (simp add: college_run_def college_mount_def)
  have q: "MalformedBody = NetworkError \<or> MalformedBody = MalformedBody"
    by simp
  show ?thesis
    using fetch_failure_keeps_placeholder [OF p q, of "[Settle (Parsed (StrJ ''late'')), Commit]"]
    by (simp add: college_mount_def college_value_def numeral_eq_Suc)
qed

text \<open>
  C7. Mount the joke provider around CompA: its first commit, any number of later commits
  \<open>b\<close>, then the resolution of the request with \<^verbatim>\<open>{category: "Programming"}\<close>. From
  then on, whatever events \<open>post\<close> follow, the tree rendered is the title and one
  \<^verbatim>\<open>h2\<close> heading whose text is \<^verbatim>\<open>Category: Programming\<close>.
\<close>

theorem category_heading_rendered:
  assumes "set b \<subseteq> {Commit}"
  shows "CollegeProvider
           (college_run
              (Commit # b @ Settle (Parsed (ObjJ [(''category'', StrJ ''Programming'')])) # post)
              college_mount) [CompA] env =
         Inr [VElem ''div'' []
               [VElem ''h1'' [] [VText ''Joke of the day''],
                VElem ''h2'' [] [VText ''Category: '', VText ''Programming'']]]
       \<and> map text_content
           (elements ''h2''
              (VElem ''div'' []
                 [VElem ''h1'' [] [VText ''Joke of the day''],
                  VElem ''h2'' [] [VText ''Category: '', VText ''Programming'']]))
           = [''Category: Programming'']"
proof -
  have p: "fetch (college_run (Commit # b) college_mount) = Pending"
    using assms by (rule commits_pending)
  have j: "joke (college_run
      (Commit # b @ Settle (Parsed (ObjJ [(''category'', StrJ ''Programming'')])) # post)
      college_mount) = JObj [(''category'', JStr ''Programming'')]"
    using resolution_state [OF p, of "ObjJ [(''category'', StrJ ''Programming'')]" post]
    by simp
  show ?thesis
    unfolding CompA_in_provider
    by (simp add: CompA_def college_value_def j)
qed

theorem category_heading_rendered_witness:
  "set [Commit, Commit] \<subseteq> {Commit}
   \<and> CollegeProvider
       (college_run
          (Commit # [Commit, Commit]
             @ Settle (Parsed (ObjJ [(''category'', StrJ ''Programming'')])) # [Commit])
          college_mount) [CompA] no_provider =
     Inr [VElem ''div'' []
           [VElem ''h1'' [] [VText ''Joke of the day''],
            VElem ''h2'' [] [VText ''Category: '', VText ''Programming'']]]"
proof -
  have c: "set [Commit, Commit] \<subseteq> {Commit}" by simp
  show ?thesis
    using c category_heading_rendered [OF c, of "[Commit]" no_provider] by simp
qed

text \<open>
  C8. In the App as built, no rendered tree of CompB or of App carries a handler, so the
  mounted App has no step at all: in every state it reaches the count is 100 and the
  tree shows 100.
\<close>

theorem count_always_100:
  assumes "app_reachable count"
  shows "count = JNum 100
       \<and> get_prop (count_value count) ''count'' = Inr (JNum 100)
       \<and> App count env = Inr [VElem ''div'' [] [VText ''100'']]
       \<and> \<not> app_step count count'
       \<and> (\<forall>c e out. App c e = Inr out \<longrightarrow> concat (map handlers out) = [])
       \<and> (\<forall>e out. CompB e = Inr out \<longrightarrow> concat (map handlers out) = [])"
proof -
  have c: "count = JNum 100"
    using reachable_is_mount [OF assms] by (simp add: count_mount_def)
  have r: "App (JNum 100) env = Inr [VElem ''div'' [] [VText ''100'']]"
    by (simp add: App_def CountProvider_def CompB_def count_value_def string_of_int_def
        string_of_nat.simps digit_def)
  show ?thesis
    using App_no_handlers CompB_no_handlers
    by (simp add: c r no_app_step count_value_def)
qed

theorem count_always_100_witness:
  "app_reachable count_mount
   \<and> count_mount = JNum 100
   \<and> App count_mount no_provider = Inr [VElem ''div'' [] [VText ''100'']]"
  using count_always_100 [OF app_reachable.mounted, of no_provider] app_reachable.mounted
  by simp

text \<open>
  C9. Until the request has settled, the joke is the empty string, \<^verbatim>\<open>joke.category\<close>
  reads \<^verbatim>\<open>undefined\<close>, which is falsy, and CompA inside the provider renders without
  throwing: the title alone, with no Category heading.
\<close>

theorem CompA_before_fetch_resolves:
  assumes "fetch (college_run es college_mount) \<noteq> Settled"
  shows "joke (college_run es college_mount) = JStr []
       \<and> get_prop (JStr []) ''category'' = Inr JUndefined
       \<and> \<not> truthy JUndefined
       \<and> CollegeProvider (college_run es college_mount) [CompA] env =
           Inr [VElem ''div'' [] [VElem ''h1'' [] [VText ''Joke of the day'']]]"
proof -
  have j: "joke (college_run es college_mount) = JStr []"
    using unsettled_joke [OF assms] by (simp add: college_mount_def)
  show ?thesis
    unfolding CompA_in_provider
    by (simp add: CompA_def college_value_def j)
qed

theorem CompA_before_fetch_resolves_witness:
  "fetch (college_run [Commit] college_mount) \<noteq> Settled
   \<and> CollegeProvider (college_run [Commit] college_mount) [CompA] no_provider =
       Inr [VElem ''div'' [] [VElem ''h1'' [] [VText ''Joke of the day'']]]"
proof -
  have p: "fetch (college_run [Commit] college_mount) \<noteq> Settled"
    by (simp add: college_run_def college_mount_def)
  show ?thesis
    using p CompA_before_fetch_resolves [OF p, of no_provider] by simp
qed

section \<open>The theme toggle\<close>

text \<open>
  C10. On the themes \<^verbatim>\<open>"light"\<close> and \<^verbatim>\<open>"dark"\<close> the mapping of Navbar's button is an
  involution, and its result is one of the two themes for every argument. It is the
  mapping the button applies: under ThemeProvider the only handler of the rendered Navbar
  calls \<^verbatim>\<open>setTheme\<close> with the toggled theme, which becomes the next theme.
\<close>

theorem toggle_involution:
  assumes "t \<in> {JStr ''light'', JStr ''dark''}"
  shows "toggle (toggle t) = t
       \<and> toggle t \<in> {JStr ''light'', JStr ''dark''}
       \<and> toggle u \<in> {JStr ''light'', JStr ''dark''}
       \<and> (\<exists>out. ThemeProvider t [Navbar] env = Inr out
             \<and> concat (map handlers out) = [(JFun setTheme, toggle t)])
       \<and> fire setTheme (JFun setTheme, toggle t) t = toggle t"
  using assms unfolding Navbar_in_provider
  by (auto simp: toggle_def Navbar_def theme_value_def fire_def)

theorem toggle_involution_witness:
  "JStr ''dark'' \<in> {JStr ''light'', JStr ''dark''}
   \<and> toggle (toggle (JStr ''dark'')) = JStr ''dark''
   \<and> toggle (JStr ''dark'') = JStr ''light''
   \<and> toggle (toggle theme_mount) = theme_mount"
proof -
  have d: "JStr ''dark'' \<in> {JStr ''light'', JStr ''dark''}" by simp
  have l: "JStr ''light'' \<in> {JStr ''light'', JStr ''dark''}" by simp
  show ?thesis
    using toggle_involution [OF d, of JNull no_provider] toggle_involution [OF l, of JNull no_provider]
    by (simp add: toggle_def theme_mount_def)
qed

end
